theory Spec2Isabelle
  imports Complex_Main
begin

section \<open>JavaScript numbers\<close>

text \<open>
  A JavaScript number is an IEEE-754 double. Every finite double is a rational, so a
  number is modelled as the \<^typ>\<open>rat\<close> it denotes, and an arithmetic operation as the exact
  operation followed by rounding to the nearest double, ties to even (53 significant
  bits). Overflow to infinity and gradual underflow are outside the model: the
  quantities of this program (heights, weights, percentages, row counts, averages of
  stored values) stay far inside the normal range. Sums and products of small integers
  are exact under this rounding, as they are in JavaScript.
\<close>

fun bit_length :: "nat \<Rightarrow> nat" where
  "bit_length n = (if n = 0 then 0 else Suc (bit_length (n div 2)))"

declare bit_length.simps [simp del]

definition pow2 :: "int \<Rightarrow> rat" where
  "pow2 e = (if 0 \<le> e then 2 ^ nat e else 1 / 2 ^ nat (- e))"

text \<open>The binary exponent \<open>e\<close> of a positive rational: \<open>2^e \<le> q < 2^(e+1)\<close>.\<close>

definition binade :: "rat \<Rightarrow> int" where
  "binade q =
     (if 1 \<le> q then int (bit_length (nat \<lfloor>q\<rfloor>)) - 1
      else - int (bit_length (nat (\<lceil>1 / q\<rceil> - 1))))"

definition round_half_even :: "rat \<Rightarrow> int" where
  "round_half_even x =
     (let f = \<lfloor>x\<rfloor>; d = x - of_int f
      in if d < 1 / 2 then f
         else if 1 / 2 < d then f + 1
         else if even f then f else f + 1)"

definition to_double :: "rat \<Rightarrow> rat" where
  "to_double q =
     (if q = 0 then 0
      else let u = pow2 (binade \<bar>q\<bar> - 52)
           in of_int (round_half_even (q / u)) * u)"

definition fadd :: "rat \<Rightarrow> rat \<Rightarrow> rat" where
  "fadd a b = to_double (a + b)"

definition fmul :: "rat \<Rightarrow> rat \<Rightarrow> rat" where
  "fmul a b = to_double (a * b)"

definition fdiv :: "rat \<Rightarrow> rat \<Rightarrow> rat" where
  "fdiv a b = to_double (a / b)"

text \<open>\<open>Math.round\<close> rounds to the nearest integer, halves towards plus infinity.\<close>

definition math_round :: "rat \<Rightarrow> int" where
  "math_round x = \<lfloor>x + 1 / 2\<rfloor>"


section \<open>JavaScript strings\<close>

text \<open>Strings are modelled as ASCII text.\<close>

definition digit_char :: "nat \<Rightarrow> char" where
  "digit_char d = ''0123456789'' ! d"

fun digits :: "nat \<Rightarrow> string" where
  "digits n = (if n < 10 then [digit_char n] else digits (n div 10) @ [digit_char (n mod 10)])"

declare digits.simps [simp del]

text \<open>The decimal text of an integer, as a template literal prints it.\<close>

definition show_int :: "int \<Rightarrow> string" where
  "show_int i = (if i < 0 then CHR ''-'' # digits (nat (- i)) else digits (nat i))"

text \<open>
  \<open>x.toFixed(1)\<close>: the integer \<open>n\<close> with \<open>n / 10\<close> nearest to the exact value of \<open>x\<close>
  (the larger one on a tie), printed with one fractional digit.
\<close>

definition toFixed1 :: "rat \<Rightarrow> string" where
  "toFixed1 x =
     (let a = \<bar>x\<bar>; n = nat \<lfloor>a * 10 + 1 / 2\<rfloor>;
          s = digits (n div 10) @ ''.'' @ digits (n mod 10)
      in if x < 0 \<and> n \<noteq> 0 then CHR ''-'' # s else s)"

definition upper_char :: "char \<Rightarrow> char" where
  "upper_char c =
     (case map_of (zip ''abcdefghijklmnopqrstuvwxyz'' ''ABCDEFGHIJKLMNOPQRSTUVWXYZ'') c of
        Some u \<Rightarrow> u
      | None \<Rightarrow> c)"

definition toUpperCase :: "string \<Rightarrow> string" where
  "toUpperCase s = map upper_char s"

section \<open>JavaScript values\<close>

text \<open>
  The values a parsed JSON document can hold, and \<open>undefined\<close> for what a property
  read yields when the property is absent.
\<close>

datatype jsval =
    JUndefined
  | JNull
  | JBool bool
  | JNum rat
  | JStr string
  | JArr "jsval list"
  | JObj "(string \<times> jsval) list"

fun truthy :: "jsval \<Rightarrow> bool" where
  "truthy JUndefined = False"
| "truthy JNull = False"
| "truthy (JBool b) = b"
| "truthy (JNum x) = (x \<noteq> 0)"
| "truthy (JStr s) = (s \<noteq> [])"
| "truthy (JArr xs) = True"
| "truthy (JObj kvs) = True"

text \<open>
  Reading a named property. Every receiver in this program is known to be truthy
  where it is read (or is read through optional chaining), so the read never throws; on a string,
  number, boolean or array none of the names this program reads exists.
\<close>

fun get_prop :: "jsval \<Rightarrow> string \<Rightarrow> jsval" where
  "get_prop (JObj kvs) k = (case map_of kvs k of None \<Rightarrow> JUndefined | Some v \<Rightarrow> v)"
| "get_prop v k = JUndefined"

text \<open>The operator \<^verbatim>\<open>a || b\<close>: the left operand when it is truthy, else the right one.\<close>

definition js_or :: "jsval \<Rightarrow> jsval \<Rightarrow> jsval" where
  "js_or a b = (if truthy a then a else b)"

text \<open>Optional chaining \<^verbatim>\<open>v?.k\<close>: \<open>undefined\<close> when \<open>v\<close> is \<open>null\<close> or \<open>undefined\<close>.\<close>

fun opt_prop :: "jsval \<Rightarrow> string \<Rightarrow> jsval" where
  "opt_prop JUndefined k = JUndefined"
| "opt_prop JNull k = JUndefined"
| "opt_prop v k = get_prop v k"

section \<open>Patient metrics and the request schema\<close>

text \<open>The validated payload of \<open>POST /api/predict\<close>: eleven integer fields.\<close>

record metrics =
  age :: int
  gender :: int
  height :: int
  weight :: int
  ap_hi :: int
  ap_lo :: int
  cholesterol :: int
  gluc :: int
  smoke :: int
  alco :: int
  active :: int

text \<open>The field domains of the Joi schema of the route.\<close>

definition valid :: "metrics \<Rightarrow> bool" where
  "valid m \<longleftrightarrow>
     1 \<le> age m \<and> age m \<le> 120 \<and>
     (gender m = 1 \<or> gender m = 2) \<and>
     100 \<le> height m \<and> height m \<le> 250 \<and>
     30 \<le> weight m \<and> weight m \<le> 200 \<and>
     80 \<le> ap_hi m \<and> ap_hi m \<le> 250 \<and>
     40 \<le> ap_lo m \<and> ap_lo m \<le> 150 \<and>
     (cholesterol m = 1 \<or> cholesterol m = 2 \<or> cholesterol m = 3) \<and>
     (gluc m = 1 \<or> gluc m = 2 \<or> gluc m = 3) \<and>
     (smoke m = 0 \<or> smoke m = 1) \<and>
     (alco m = 0 \<or> alco m = 1) \<and>
     (active m = 0 \<or> active m = 1)"


text \<open>
  A candidate payload as the validator sees it. A field holds a number (Joi converts
  a numeric string to the number it denotes before checking, so such a string is
  modelled as that number) or some other JSON value. The list holds the own properties of
  the parsed object, each key once.
\<close>

datatype candidate_value = Num rat | Other

datatype candidate = NotAnObject | Object "(string \<times> candidate_value) list"

datatype rule = Integer | Min int | Max int

record number_schema =
  only :: "int list option"
  rules :: "rule list"

text \<open>
  The schema of the route, key by key in the order of the source; every key is
  \<^verbatim>\<open>Joi.number()\<close> and \<^verbatim>\<open>required()\<close>.
\<close>

definition payload_schema :: "(string \<times> number_schema) list" where
  "payload_schema =
     [(''age'', \<lparr>only = None, rules = [Integer, Min 1, Max 120]\<rparr>),
      (''gender'', \<lparr>only = Some [1, 2], rules = [Integer]\<rparr>),
      (''height'', \<lparr>only = None, rules = [Integer, Min 100, Max 250]\<rparr>),
      (''weight'', \<lparr>only = None, rules = [Integer, Min 30, Max 200]\<rparr>),
      (''ap_hi'', \<lparr>only = None, rules = [Integer, Min 80, Max 250]\<rparr>),
      (''ap_lo'', \<lparr>only = None, rules = [Integer, Min 40, Max 150]\<rparr>),
      (''cholesterol'', \<lparr>only = Some [1, 2, 3], rules = [Integer]\<rparr>),
      (''gluc'', \<lparr>only = Some [1, 2, 3], rules = [Integer]\<rparr>),
      (''smoke'', \<lparr>only = Some [0, 1], rules = [Integer]\<rparr>),
      (''alco'', \<lparr>only = Some [0, 1], rules = [Integer]\<rparr>),
      (''active'', \<lparr>only = Some [0, 1], rules = [Integer]\<rparr>)]"

text \<open>
  How Joi checks one number key, with the error codes it reports. The first argument
  is the preference \<open>abortEarly\<close>: when set, checking stops at the first error. A value
  in the \<open>valid(...)\<close> list is accepted at once; otherwise the key fails with
  \<open>any.only\<close>, then the base type is checked, then the rules in order.
\<close>

definition check_rule :: "rule \<Rightarrow> rat \<Rightarrow> string list" where
  "check_rule r q =
     (case r of
        Integer \<Rightarrow> (if of_int \<lfloor>q\<rfloor> = q then [] else [''number.integer''])
      | Min n \<Rightarrow> (if of_int n \<le> q then [] else [''number.min''])
      | Max n \<Rightarrow> (if q \<le> of_int n then [] else [''number.max'']))"

fun check_rules :: "bool \<Rightarrow> rule list \<Rightarrow> rat \<Rightarrow> string list" where
  "check_rules abortEarly [] q = []"
| "check_rules abortEarly (r # rs) q =
     (let es = check_rule r q
      in if abortEarly \<and> es \<noteq> [] then es else es @ check_rules abortEarly rs q)"

definition unsafe :: "rat \<Rightarrow> bool" where
  "unsafe q \<longleftrightarrow> 9007199254740991 < \<bar>q\<bar>"

definition check_number :: "bool \<Rightarrow> number_schema \<Rightarrow> candidate_value option \<Rightarrow> string list" where
  "check_number abortEarly s v =
     (case v of
        None \<Rightarrow> [''any.required'']
      | Some cv \<Rightarrow>
          (let listed = (case (only s, cv) of
                           (Some vs, Num q) \<Rightarrow> q \<in> of_int ` set vs
                         | _ \<Rightarrow> False);
               es = (case only s of None \<Rightarrow> [] | Some vs \<Rightarrow> [''any.only''])
           in if listed then []
              else if abortEarly \<and> es \<noteq> [] then es
              else (case cv of
                      Other \<Rightarrow> es @ [''number.base'']
                    | Num q \<Rightarrow>
                        if unsafe q then es @ [''number.unsafe'']
                        else es @ check_rules abortEarly (rules s) q)))"

fun check_keys ::
  "bool \<Rightarrow> (string \<times> number_schema) list \<Rightarrow> (string \<rightharpoonup> candidate_value) \<Rightarrow>
   (string \<times> string) list" where
  "check_keys abortEarly [] obj = []"
| "check_keys abortEarly ((k, s) # rest) obj =
     (let es = map (Pair k) (check_number abortEarly s (obj k))
      in if abortEarly \<and> es \<noteq> [] then es else es @ check_keys abortEarly rest obj)"

definition int_field :: "(string \<rightharpoonup> candidate_value) \<Rightarrow> string \<Rightarrow> int" where
  "int_field obj k = (case obj k of Some (Num q) \<Rightarrow> \<lfloor>q\<rfloor> | _ \<Rightarrow> 0)"

definition metrics_of :: "(string \<rightharpoonup> candidate_value) \<Rightarrow> metrics" where
  "metrics_of obj =
     \<lparr>age = int_field obj ''age'', gender = int_field obj ''gender'',
      height = int_field obj ''height'', weight = int_field obj ''weight'',
      ap_hi = int_field obj ''ap_hi'', ap_lo = int_field obj ''ap_lo'',
      cholesterol = int_field obj ''cholesterol'', gluc = int_field obj ''gluc'',
      smoke = int_field obj ''smoke'', alco = int_field obj ''alco'',
      active = int_field obj ''active''\<rparr>"

text \<open>
  Validation of the whole payload: the keys of the schema in order, then the keys
  the schema does not know (a Joi object rejects them). The result is the list of
  (key, error code) pairs, or the typed metrics when there is no error.
\<close>

definition validate_payload :: "bool \<Rightarrow> candidate \<Rightarrow> (string \<times> string) list + metrics" where
  "validate_payload abortEarly c =
     (case c of
        NotAnObject \<Rightarrow> Inl [(''value'', ''object.base'')]
      | Object kvs \<Rightarrow>
          (let obj = map_of kvs;
               es = check_keys abortEarly payload_schema obj;
               unknown = map (\<lambda>k. (k, ''object.unknown''))
                           (filter (\<lambda>k. k \<notin> set (map fst payload_schema)) (map fst kvs));
               errors = (if abortEarly \<and> es \<noteq> [] then es
                         else if abortEarly then take 1 unknown
                         else es @ unknown)
           in if errors = [] then Inr (metrics_of obj) else Inl errors))"







section \<open>predictCardiovascularRisk\<close>

text \<open>The body posted to the ML service.\<close>

record ml_payload =
  ml_age :: int
  ml_gender :: int
  ml_height :: int
  ml_weight :: int
  ml_ap_hi :: int
  ml_ap_lo :: int
  ml_cholesterol :: int
  ml_gluc :: int
  ml_smoke :: int
  ml_alco :: int
  ml_active :: int

definition ml_request :: "metrics \<Rightarrow> ml_payload" where
  "ml_request formData =
     \<lparr>ml_age = age formData,
      ml_gender = (if gender formData = 1 then 0 else 1),
      ml_height = height formData,
      ml_weight = weight formData,
      ml_ap_hi = ap_hi formData,
      ml_ap_lo = ap_lo formData,
      ml_cholesterol = cholesterol formData,
      ml_gluc = gluc formData,
      ml_smoke = smoke formData,
      ml_alco = alco formData,
      ml_active = active formData\<rparr>"

text \<open>
  What the awaited \<^verbatim>\<open>axios.post\<close> does: it rejects (timeout, connection error, a status
  outside 2xx), or it resolves and \<open>mlResponse.data\<close> is the parsed body (the raw
  string when the body is not JSON).
\<close>

datatype ml_outcome = MlRejected | MlResolved jsval

text \<open>
  \<open>Math.round(confidence * 100)\<close> and \<open>bmi.toString()\<close> are evaluated where the operand
  is a number, respectively a string; for an operand of another type the coercion of
  JavaScript is recorded, not evaluated.
\<close>

datatype percent = Percent int | RoundTimes100 jsval

datatype js_text = Text string | ToStringOf jsval

definition round_percent :: "jsval \<Rightarrow> percent" where
  "round_percent c =
     (case c of JNum x \<Rightarrow> Percent (math_round (fmul x 100)) | _ \<Rightarrow> RoundTimes100 c)"

definition to_text :: "jsval \<Rightarrow> js_text" where
  "to_text v = (case v of JStr s \<Rightarrow> Text s | _ \<Rightarrow> ToStringOf v)"

record ml_insights =
  md_model_confidence :: jsval
  md_bmi_category :: jsval
  md_interpretation :: jsval
  md_recommendation :: jsval

record prediction_result =
  risk :: jsval
  confidence :: percent
  probability :: jsval
  risk_label :: string
  bmi :: js_text
  source :: string
  ml_details :: "ml_insights option"

text \<open>\<open>weight / (heightInM * heightInM)\<close> with \<open>heightInM = height / 100\<close>, in doubles.\<close>

definition computed_bmi :: "metrics \<Rightarrow> rat" where
  "computed_bmi formData =
     (let heightInM = fdiv (of_int (height formData)) 100
      in fdiv (of_int (weight formData)) (fmul heightInM heightInM))"

datatype js_error = TypeError

text \<open>
  The part of the \<open>try\<close> block after the response has arrived: \<open>Inr (Some r)\<close> when it
  returns \<open>r\<close>, \<open>Inr None\<close> when the \<open>if\<close> is not taken, \<open>Inl TypeError\<close> when
  \<open>riskLevel.toUpperCase\<close> is called on a value that is not a string.
\<close>

definition ml_result :: "metrics \<Rightarrow> jsval \<Rightarrow> js_error + prediction_result option" where
  "ml_result formData d =
     (if truthy d \<and> (truthy (get_prop d ''success'') \<or> get_prop d ''prediction'' \<noteq> JUndefined)
      then
        (let responseData = js_or (get_prop d ''data'') d;
             prediction = (if get_prop responseData ''prediction'' \<noteq> JUndefined
                           then get_prop responseData ''prediction''
                           else get_prop d ''prediction'');
             confidence = js_or (get_prop responseData ''confidence'')
                            (js_or (get_prop d ''confidence'') (JNum (1 / 2)));
             probability = js_or (get_prop responseData ''probability'')
                             (js_or (get_prop d ''probability'') confidence);
             riskLevel = js_or (get_prop responseData ''risk_level'')
                           (js_or (get_prop d ''risk_level'')
                              (if prediction = JNum 1 then JStr ''HIGH'' else JStr ''LOW''));
             bmi = js_or (opt_prop (get_prop responseData ''patient_data'') ''bmi'')
                     (js_or (get_prop responseData ''bmi'')
                        (JStr (toFixed1 (computed_bmi formData))))
         in case riskLevel of
              JStr level \<Rightarrow>
                Inr (Some
                  \<lparr>risk = prediction,
                   confidence = round_percent confidence,
                   probability = probability,
                   risk_label = (if toUpperCase level = ''HIGH'' then ''High Risk'' else ''Low Risk''),
                   bmi = to_text bmi,
                   source = ''ml_model'',
                   ml_details = Some
                     \<lparr>md_model_confidence = confidence,
                      md_bmi_category =
                        js_or (opt_prop (get_prop responseData ''patient_data'') ''bmi_category'')
                          (js_or (get_prop responseData ''bmi_category'') (JStr ''Unknown'')),
                      md_interpretation =
                        js_or (get_prop responseData ''interpretation'')
                          (js_or (get_prop d ''interpretation'') (JStr ''ML prediction completed'')),
                      md_recommendation =
                        js_or (get_prop responseData ''result_message'')
                          (js_or (get_prop d ''result_message'')
                             (js_or (get_prop responseData ''recommendation'')
                                (JStr ''Follow medical advice'')))\<rparr>\<rparr>)
            | _ \<Rightarrow> Inl TypeError)
      else Inr None)"

text \<open>The rule-based fallback.\<close>

definition riskFactors :: "metrics \<Rightarrow> int list" where
  "riskFactors formData =
     (let bmi = computed_bmi formData
      in [if 55 < age formData then 25 else if 45 < age formData then 15 else 5,
          if gender formData = 2 then 10 else 5,
          if 30 < bmi then 20 else if 25 < bmi then 10 else 0,
          if 140 < ap_hi formData then 25 else if 120 < ap_hi formData then 15 else 5,
          if 90 < ap_lo formData then 20 else if 80 < ap_lo formData then 10 else 5,
          if cholesterol formData = 3 then 25 else if cholesterol formData = 2 then 15 else 0,
          if gluc formData = 3 then 20 else if gluc formData = 2 then 10 else 0,
          if smoke formData = 1 then 15 else 0,
          if alco formData = 1 then 5 else 0,
          if active formData = 0 then 10 else 0])"

definition totalRisk :: "metrics \<Rightarrow> int" where
  "totalRisk formData = foldl (\<lambda>sum risk. sum + risk) 0 (riskFactors formData)"

definition rule_based :: "metrics \<Rightarrow> prediction_result" where
  "rule_based formData =
     (let confidence = min (max (totalRisk formData) 10) 95;
          risk = (if 65 \<le> confidence then 1 else 0 :: int);
          probability = fdiv (of_int confidence) 100
      in \<lparr>risk = JNum (of_int risk),
          confidence = Percent confidence,
          probability = JNum probability,
          risk_label = (if risk = 1 then ''High Risk'' else ''Low Risk''),
          bmi = Text (toFixed1 (computed_bmi formData)),
          source = ''rule_based'',
          ml_details = None\<rparr>)"

text \<open>
  The whole function: the \<open>catch\<close> swallows a rejection of the call and a \<open>TypeError\<close>
  of the normalisation alike, and control then reaches the fallback, as it does when
  the \<open>if\<close> is not taken.
\<close>

definition predictCardiovascularRisk :: "metrics \<Rightarrow> ml_outcome \<Rightarrow> prediction_result" where
  "predictCardiovascularRisk formData outcome =
     (case outcome of
        MlRejected \<Rightarrow> rule_based formData
      | MlResolved d \<Rightarrow>
          (case ml_result formData d of
             Inr (Some r) \<Rightarrow> r
           | Inr None \<Rightarrow> rule_based formData
           | Inl e \<Rightarrow> rule_based formData))"


text \<open>
  The scoring rule in the words of the specification, over a given BMI value: the
  threshold contributions, their sum, the clamp.
\<close>

definition exact_bmi :: "metrics \<Rightarrow> rat" where
  "exact_bmi m = of_int (weight m) / (of_int (height m) / 100)\<^sup>2"

definition age_points :: "int \<Rightarrow> int" where
  "age_points a = (if 55 < a then 25 else if 45 < a then 15 else 5)"

definition gender_points :: "int \<Rightarrow> int" where
  "gender_points g = (if g = 2 then 10 else 5)"

definition bmi_points :: "rat \<Rightarrow> int" where
  "bmi_points b = (if 30 < b then 20 else if 25 < b then 10 else 0)"

definition systolic_points :: "int \<Rightarrow> int" where
  "systolic_points p = (if 140 < p then 25 else if 120 < p then 15 else 5)"

definition diastolic_points :: "int \<Rightarrow> int" where
  "diastolic_points p = (if 90 < p then 20 else if 80 < p then 10 else 5)"

definition cholesterol_points :: "int \<Rightarrow> int" where
  "cholesterol_points c = (if c = 3 then 25 else if c = 2 then 15 else 0)"

definition glucose_points :: "int \<Rightarrow> int" where
  "glucose_points g = (if g = 3 then 20 else if g = 2 then 10 else 0)"

definition lifestyle_points :: "metrics \<Rightarrow> int" where
  "lifestyle_points m =
     (if smoke m = 1 then 15 else 0) + (if alco m = 1 then 5 else 0) +
     (if active m = 1 then 0 else 10)"

definition spec_score :: "rat \<Rightarrow> metrics \<Rightarrow> int" where
  "spec_score b m =
     age_points (age m) + gender_points (gender m) + bmi_points b +
     systolic_points (ap_hi m) + diastolic_points (ap_lo m) +
     cholesterol_points (cholesterol m) + glucose_points (gluc m) + lifestyle_points m"

definition clamp :: "int \<Rightarrow> int \<Rightarrow> int \<Rightarrow> int" where
  "clamp lo hi x = (if x < lo then lo else if hi < x then hi else x)"

definition spec_confidence :: "rat \<Rightarrow> metrics \<Rightarrow> int" where
  "spec_confidence b m = clamp 10 95 (spec_score b m)"

definition spec_risk :: "rat \<Rightarrow> metrics \<Rightarrow> int" where
  "spec_risk b m = (if 65 \<le> spec_confidence b m then 1 else 0)"

section \<open>POST /api/predict\<close>

text \<open>
  A reply is \<open>h.response(body).code(n)\<close>: the status code and the body, \<open>Inl\<close> holding
  the \<open>error\<close> text of a failure body.
\<close>

datatype 'a reply = Reply int "string + 'a"

record prediction_view =
  v_risk :: jsval
  v_confidence :: percent
  v_probability :: jsval
  v_risk_label :: string
  v_bmi :: js_text
  v_source :: string

record patient_view =
  p_age :: int
  p_gender :: string
  p_height :: int
  p_weight :: int
  p_bmi :: js_text
  p_blood_pressure :: string
  p_cholesterol :: string
  p_glucose :: string
  p_smoking :: string
  p_alcohol :: string
  p_physical_activity :: string

record predict_body =
  success :: bool
  prediction :: prediction_view
  patient_data :: patient_view
  ml_insights :: "ml_insights option"
  saved :: bool
  message :: string

text \<open>
  What the awaited insert resolves to: the client reports a failed write in \<open>error\<close>
  and the written rows in \<open>data\<close>.
\<close>

record insert_reply =
  ins_data :: jsval
  ins_error :: jsval

definition prediction_view_of :: "prediction_result \<Rightarrow> prediction_view" where
  "prediction_view_of p =
     \<lparr>v_risk = risk p, v_confidence = confidence p, v_probability = probability p,
      v_risk_label = risk_label p, v_bmi = bmi p, v_source = source p\<rparr>"

definition level_text :: "int \<Rightarrow> string" where
  "level_text c =
     (if c = 1 then ''Normal'' else if c = 2 then ''Above Normal'' else ''Well Above Normal'')"

definition yes_no :: "int \<Rightarrow> string" where
  "yes_no b = (if b = 1 then ''Yes'' else ''No'')"

definition patient_view_of :: "metrics \<Rightarrow> prediction_result \<Rightarrow> patient_view" where
  "patient_view_of inputData p =
     \<lparr>p_age = age inputData,
      p_gender = (if gender inputData = 2 then ''Female'' else ''Male''),
      p_height = height inputData,
      p_weight = weight inputData,
      p_bmi = bmi p,
      p_blood_pressure = show_int (ap_hi inputData) @ ''/'' @ show_int (ap_lo inputData),
      p_cholesterol = level_text (cholesterol inputData),
      p_glucose = level_text (gluc inputData),
      p_smoking = yes_no (smoke inputData),
      p_alcohol = yes_no (alco inputData),
      p_physical_activity = yes_no (active inputData)\<rparr>"

text \<open>
  The handler, for a validated payload, the outcome of the ML call and the reply of
  the insert. When the insert reports no error the handler logs \<open>data[0]\<close>, which
  throws for a \<open>data\<close> that is \<open>null\<close> or \<open>undefined\<close>; the outer \<open>catch\<close> turns that into
  the 500 reply.
\<close>

definition predict_handler :: "metrics \<Rightarrow> ml_outcome \<Rightarrow> insert_reply \<Rightarrow> predict_body reply" where
  "predict_handler inputData outcome ins =
     (let p = predictCardiovascularRisk inputData outcome
      in if \<not> truthy (ins_error ins) \<and> (ins_data ins = JNull \<or> ins_data ins = JUndefined)
         then Reply 500 (Inl ''Internal server error'')
         else Reply 200 (Inr
           \<lparr>success = True,
            prediction = prediction_view_of p,
            patient_data = patient_view_of inputData p,
            ml_insights = ml_details p,
            saved = (\<not> truthy (ins_error ins)),
            message = ''Prediction completed successfully''\<rparr>))"

section \<open>GET /api/predictions\<close>

record list_query =
  page :: int
  limit :: int
  riskLevel :: "int option"
  q_gender :: "int option"



text \<open>A stored row, with the columns the read endpoints use.\<close>

record prediction_row =
  r_created_at :: int
  r_risk_prediction :: int
  r_gender :: int
  r_age :: int
  r_bmi :: "rat option"

record select_reply =
  sel_data :: "prediction_row list"
  sel_error :: "string option"
  sel_count :: int








section \<open>GET /api/statistics\<close>

record statistics =
  total :: nat
  highRisk :: nat
  lowRisk :: nat
  male :: nat
  female :: nat
  averageAge :: rat
  averageBMI :: rat

text \<open>\<open>item.bmi\<close> as a filter condition: the value is there and is not zero.\<close>

definition has_bmi :: "prediction_row \<Rightarrow> bool" where
  "has_bmi item = (case r_bmi item of None \<Rightarrow> False | Some b \<Rightarrow> b \<noteq> 0)"

definition parseFloat_bmi :: "prediction_row \<Rightarrow> rat" where
  "parseFloat_bmi item = (case r_bmi item of None \<Rightarrow> 0 | Some b \<Rightarrow> b)"

definition compute_statistics :: "prediction_row list \<Rightarrow> statistics" where
  "compute_statistics data =
     \<lparr>total = length data,
      highRisk = length (filter (\<lambda>item. r_risk_prediction item = 1) data),
      lowRisk = length (filter (\<lambda>item. r_risk_prediction item = 0) data),
      male = length (filter (\<lambda>item. r_gender item = 2) data),
      female = length (filter (\<lambda>item. r_gender item = 1) data),
      averageAge =
        (if 0 < length data
         then fdiv (foldl (\<lambda>sum item. fadd sum (of_int (r_age item))) 0 data)
                (of_nat (length data))
         else 0),
      averageBMI =
        (if 0 < length (filter has_bmi data)
         then fdiv (foldl (\<lambda>sum item. fadd sum (parseFloat_bmi item)) 0 (filter has_bmi data))
                (of_nat (length (filter has_bmi data)))
         else 0)\<rparr>"

definition statistics_handler :: "select_reply \<Rightarrow> statistics reply" where
  "statistics_handler r =
     (case sel_error r of
        Some e \<Rightarrow> Reply 500 (Inl ''Failed to get statistics'')
      | None \<Rightarrow> Reply 200 (Inr (compute_statistics (sel_data r))))"

text \<open>
  The mean as JavaScript computes it: the values added from the left, then one
  division by their number.
\<close>

definition js_mean :: "rat list \<Rightarrow> rat" where
  "js_mean xs = fdiv (foldl fadd 0 xs) (of_nat (length xs))"

text \<open>The BMI values of the rows that have one, and those among them that are not zero.\<close>

definition present_bmis :: "prediction_row list \<Rightarrow> rat list" where
  "present_bmis data = List.map_filter r_bmi data"

definition nonzero_bmis :: "prediction_row list \<Rightarrow> rat list" where
  "nonzero_bmis data = filter (\<lambda>b. b \<noteq> 0) (present_bmis data)"


section \<open>Notions used to state the properties\<close>

text \<open>Sample inputs: the two worked examples of the specification, and a patient whose
  exact BMI is 25.\<close>

definition example_high :: metrics where
  "example_high =
     \<lparr>age = 60, gender = 2, height = 170, weight = 90, ap_hi = 150, ap_lo = 95,
      cholesterol = 3, gluc = 3, smoke = 1, alco = 0, active = 0\<rparr>"

definition example_low :: metrics where
  "example_low =
     \<lparr>age = 30, gender = 1, height = 165, weight = 55, ap_hi = 110, ap_lo = 70,
      cholesterol = 1, gluc = 1, smoke = 0, alco = 0, active = 1\<rparr>"

definition example_bmi25 :: metrics where
  "example_bmi25 =
     \<lparr>age = 60, gender = 2, height = 140, weight = 49, ap_hi = 130, ap_lo = 85,
      cholesterol = 1, gluc = 1, smoke = 0, alco = 0, active = 1\<rparr>"


text \<open>The label that the risk value alone determines.\<close>

definition label_of_risk :: "jsval \<Rightarrow> string" where
  "label_of_risk r = (if r = JNum 1 then ''High Risk'' else ''Low Risk'')"

text \<open>The \<open>prediction\<close> and the \<open>risk_level\<close> a response body supplies, nested or at top level.\<close>

definition prediction_of :: "jsval \<Rightarrow> jsval" where
  "prediction_of d =
     (let responseData = js_or (get_prop d ''data'') d
      in if get_prop responseData ''prediction'' \<noteq> JUndefined
         then get_prop responseData ''prediction''
         else get_prop d ''prediction'')"

definition supplied_risk_level :: "jsval \<Rightarrow> jsval" where
  "supplied_risk_level d =
     js_or (get_prop (js_or (get_prop d ''data'') d) ''risk_level'') (get_prop d ''risk_level'')"

definition riskLevel_of :: "jsval \<Rightarrow> jsval" where
  "riskLevel_of d =
     js_or (get_prop (js_or (get_prop d ''data'') d) ''risk_level'')
       (js_or (get_prop d ''risk_level'')
          (if prediction_of d = JNum 1 then JStr ''HIGH'' else JStr ''LOW''))"

text \<open>
  The label rule the code follows: a remote result takes its label from the
  \<open>risk_level\<close> text of the response when there is one, and from the risk value
  otherwise; a rule-based result takes it from the risk value.
\<close>

definition label_rule :: "ml_outcome \<Rightarrow> prediction_result \<Rightarrow> string" where
  "label_rule outcome r =
     (case outcome of
        MlRejected \<Rightarrow> label_of_risk (risk r)
      | MlResolved d \<Rightarrow>
          (if source r = ''ml_model'' \<and> truthy (supplied_risk_level d)
           then (case supplied_risk_level d of
                   JStr level \<Rightarrow>
                     if toUpperCase level = ''HIGH'' then ''High Risk'' else ''Low Risk''
                 | _ \<Rightarrow> label_of_risk (risk r))
           else label_of_risk (risk r)))"


text \<open>A candidate that violates two fields: age 0 and gender 3.\<close>

definition two_violations :: candidate where
  "two_violations =
     Object [(''age'', Num 0), (''gender'', Num 3), (''height'', Num 170), (''weight'', Num 70),
             (''ap_hi'', Num 120), (''ap_lo'', Num 80), (''cholesterol'', Num 1),
             (''gluc'', Num 1), (''smoke'', Num 0), (''alco'', Num 0), (''active'', Num 1)]"

text \<open>A stored row with a given BMI column.\<close>

definition row_bmi :: "rat option \<Rightarrow> prediction_row" where
  "row_bmi b =
     \<lparr>r_created_at = 0, r_risk_prediction = 0, r_gender = 1, r_age = 40, r_bmi = b\<rparr>"




section \<open>Evaluating the number model\<close>

lemma bit_length_0 [simp]: "bit_length 0 = 0"
  by (simp add: bit_length.simps)

lemma bit_length_Suc_0 [simp]: "bit_length (Suc 0) = Suc 0"
  by (simp add: bit_length.simps)

lemma bit_length_1 [simp]: "bit_length 1 = 1"
  by (simp add: bit_length.simps)

lemma bit_length_Bit0 [simp]:
  "bit_length (numeral (Num.Bit0 k)) = Suc (bit_length (numeral k))"
  by (subst bit_length.simps) simp

lemma bit_length_Bit1 [simp]:
  "bit_length (numeral (Num.Bit1 k)) = Suc (bit_length (numeral k))"
  by (subst bit_length.simps) simp

lemma floor_rat_numeral_div [simp]:
  "\<lfloor>numeral a / numeral b :: rat\<rfloor> = numeral a div numeral b"
  using floor_divide_of_int_eq [of "numeral a" "numeral b", where ?'a = rat] by simp

lemma floor_rat_one_div [simp]:
  "\<lfloor>1 / numeral b :: rat\<rfloor> = 1 div numeral b"
  using floor_divide_of_int_eq [of 1 "numeral b", where ?'a = rat] by simp

lemma ceiling_rat_numeral_div [simp]:
  "\<lceil>numeral a / numeral b :: rat\<rceil> = - (- numeral a div numeral b)"
  using floor_divide_of_int_eq [of "- numeral a" "numeral b", where ?'a = rat]
  by (simp add: ceiling_def)

lemma ceiling_rat_one_div [simp]:
  "\<lceil>1 / numeral b :: rat\<rceil> = - (- 1 div numeral b)"
  using floor_divide_of_int_eq [of "- 1" "numeral b", where ?'a = rat]
  by (simp add: ceiling_def)

lemmas double_eval =
  fadd_def fdiv_def fmul_def to_double_def binade_def pow2_def round_half_even_def Let_def

subsection \<open>The error of rounding to a double\<close>

lemma bit_length_bounds:
  "0 < n \<Longrightarrow> 2 ^ (bit_length n - 1) \<le> n \<and> n < 2 ^ bit_length n"
proof (induction n rule: bit_length.induct)
  case (1 n)
  show ?case
  proof (cases "n div 2 = 0")
    case True
    with 1 have "n = 1" by (simp add: div_eq_0_iff) 
    then show ?thesis by (simp add: bit_length.simps)
  next
    case False
    then have pos: "0 < n div 2" by simp
    from 1 pos have ih: "2 ^ (bit_length (n div 2) - 1) \<le> n div 2 \<and> n div 2 < 2 ^ bit_length (n div 2)"
      by simp
    have bl: "bit_length n = Suc (bit_length (n div 2))"
      using 1(2) by (subst bit_length.simps) simp
    have bpos: "0 < bit_length (n div 2)"
      using pos by (subst bit_length.simps) simp
    then obtain k where k: "bit_length (n div 2) = Suc k" by (cases "bit_length (n div 2)") auto
    from ih have "2 * 2 ^ k \<le> 2 * (n div 2)" by (simp add: k)
    also have "\<dots> \<le> n" by simp
    finally have lo: "2 ^ (bit_length n - 1) \<le> n" by (simp add: bl k)
    from ih have "n div 2 + 1 \<le> 2 ^ Suc k" by (simp add: k)
    then have "2 * (n div 2) + 2 \<le> 2 * 2 ^ Suc k" by simp
    moreover have "n < 2 * (n div 2) + 2" by (simp add: less_mult_imp_div_less) 
    ultimately have "n < 2 ^ bit_length n" by (simp add: bl k)
    with lo show ?thesis by simp
  qed
qed

lemma pow2_powi: "pow2 e = 2 powi e"
  by (simp add: pow2_def power_int_def inverse_eq_divide power_one_over)

lemma pow2_pos: "0 < pow2 e"
  by (simp add: pow2_powi)

lemma pow2_add: "pow2 (a + b) = pow2 a * pow2 b"
  by (simp add: pow2_powi power_int_add)


lemma pow2_nat: "pow2 (int n) = 2 ^ n"
  by (simp add: pow2_def)

lemma pow2_neg_nat: "pow2 (- int n) = 1 / 2 ^ n"
  by (simp add: pow2_powi power_int_minus inverse_eq_divide)

lemma binade_bounds:
  assumes "0 < q"
  shows "pow2 (binade q) \<le> q \<and> q < pow2 (binade q + 1)"
proof (cases "1 \<le> q")
  case True
  define n where "n = nat \<lfloor>q\<rfloor>"
  have n1: "0 < n" using True by (simp add: n_def)
  have "rat_of_nat n = of_int \<lfloor>q\<rfloor>"
    using True by (simp add: n_def)
  then have nq: "of_nat n \<le> q" "q < of_nat n + 1"
    by linarith+
  obtain k where k: "bit_length n = Suc k"
    using n1 by (cases "bit_length n") (auto simp add: bit_length.simps)
  from bit_length_bounds [OF n1] have b: "2 ^ k \<le> n" "n < 2 ^ Suc k" by (simp_all add: k)
  have e: "binade q = int k" using True by (simp add: binade_def n_def [symmetric] k)
  have "(2::rat) ^ k \<le> of_nat n" using b(1) by (metis of_nat_le_iff of_nat_numeral of_nat_power)
  moreover have "pow2 (binade q) = 2 ^ k" by (simp add: e pow2_nat)
  ultimately have lo: "pow2 (binade q) \<le> q" using nq(1) by linarith
  have "n + 1 \<le> 2 ^ Suc k" using b(2) by simp
  then have "(of_nat (n + 1) :: rat) \<le> of_nat (2 ^ Suc k)" by (rule of_nat_mono)
  then have "(of_nat n :: rat) + 1 \<le> 2 ^ Suc k" by simp
  then have "q < 2 ^ Suc k" using nq(2) by simp
  moreover have "pow2 (binade q + 1) = 2 ^ Suc k"
    using pow2_nat [of "Suc k"] by (simp add: e add.commute)
  ultimately show ?thesis using lo by simp
next
  case False
  define r where "r = 1 / q"
  have r1: "1 < r" using assms False by (simp add: r_def)
  define n where "n = nat (\<lceil>r\<rceil> - 1)"
  have c2: "2 \<le> \<lceil>r\<rceil>" using r1 by linarith
  have n1: "0 < n" using c2 by (simp add: n_def)
  have nr: "of_nat n < r" "r \<le> of_nat n + 1"
  proof -
    have "of_int (\<lceil>r\<rceil> - 1) < r" by linarith
    moreover have "rat_of_nat n = of_int (\<lceil>r\<rceil> - 1)" using c2 by (simp add: n_def)
    ultimately show "of_nat n < r" by simp
    have "r \<le> of_int \<lceil>r\<rceil>" by linarith
    moreover have "rat_of_nat n + 1 = of_int \<lceil>r\<rceil>" using c2 by (simp add: n_def)
    ultimately show "r \<le> of_nat n + 1" by simp
  qed
  obtain k where k: "bit_length n = Suc k"
    using n1 by (cases "bit_length n") (auto simp add: bit_length.simps)
  from bit_length_bounds [OF n1] have b: "2 ^ k \<le> n" "n < 2 ^ Suc k" by (simp_all add: k)
  have e: "binade q = - int (Suc k)"
    using False by (simp add: binade_def r_def [symmetric] n_def [symmetric] k)
  have "n + 1 \<le> 2 ^ Suc k" using b(2) by simp
  then have "(of_nat (n + 1) :: rat) \<le> of_nat (2 ^ Suc k)" by (rule of_nat_mono)
  then have "r \<le> 2 ^ Suc k" using nr(2) by simp
  then have "1 / 2 ^ Suc k \<le> 1 / r" using r1 by (intro divide_left_mono) simp_all
  moreover have "pow2 (binade q) = 1 / 2 ^ Suc k"
    unfolding e by (rule pow2_neg_nat)
  ultimately have lo: "pow2 (binade q) \<le> q"
    using assms by (simp add: r_def)
  have "(2::rat) ^ k \<le> of_nat n" using b(1) by (metis of_nat_le_iff of_nat_numeral of_nat_power)
  then have "2 ^ k < r" using nr(1) by linarith
  then have "1 / r < 1 / 2 ^ k" using r1 by (intro divide_strict_left_mono) simp_all
  moreover have "pow2 (binade q + 1) = 1 / 2 ^ k"
    using pow2_neg_nat [of k] by (simp add: e)
  ultimately have "q < pow2 (binade q + 1)" using assms by (simp add: r_def)
  with lo show ?thesis by simp
qed

lemma nearest_error:
  fixes d :: rat and f :: int
  assumes "0 \<le> d" and "d < 1"
  shows "\<bar>of_int (if d < 1 / 2 then f else if 1 / 2 < d then f + 1
                  else if even f then f else f + 1) - (of_int f + d)\<bar> \<le> 1 / 2"
  using assms by (auto simp add: abs_if)

lemma round_half_even_error: "\<bar>of_int (round_half_even x) - x\<bar> \<le> 1 / 2"
proof -
  define d where "d = x - of_int \<lfloor>x\<rfloor>"
  have d: "0 \<le> d" "d < 1" by (simp_all add: d_def) linarith
  have x: "of_int \<lfloor>x\<rfloor> + d = x" by (simp add: d_def)
  have r: "round_half_even x = (if d < 1 / 2 then \<lfloor>x\<rfloor> else if 1 / 2 < d then \<lfloor>x\<rfloor> + 1
                  else if even \<lfloor>x\<rfloor> then \<lfloor>x\<rfloor> else \<lfloor>x\<rfloor> + 1)"
    by (simp only: round_half_even_def Let_def d_def)
  show ?thesis
    using nearest_error [OF d, of "\<lfloor>x\<rfloor>"] by (simp only: r x)
qed


lemma to_double_error:
  "\<bar>to_double q - q\<bar> \<le> \<bar>q\<bar> / 2 ^ 53"
proof (cases "q = 0")
  case True
  then show ?thesis by (simp add: to_double_def)
next
  case False
  define e where "e = binade \<bar>q\<bar>"
  define u where "u = pow2 (e - 52)"
  have up: "0 < u" by (simp add: u_def pow2_pos)
  have td: "to_double q = of_int (round_half_even (q / u)) * u"
    using False by (simp add: to_double_def Let_def u_def e_def)
  have "(of_int (round_half_even (q / u)) - q / u) * u = to_double q - q"
    using up by (simp add: td left_diff_distrib)
  then have "\<bar>to_double q - q\<bar> = \<bar>of_int (round_half_even (q / u)) - q / u\<bar> * \<bar>u\<bar>"
    by (simp only: abs_mult [symmetric])
  also have "\<dots> = \<bar>of_int (round_half_even (q / u)) - q / u\<bar> * u"
    using up by simp
  also have "\<dots> \<le> 1 / 2 * u"
    using round_half_even_error [of "q / u"] up by (intro mult_right_mono) simp_all
  also have "\<dots> = pow2 e / 2 ^ 53"
  proof -
    have "pow2 e = pow2 (e - 52) * pow2 52" using pow2_add [of "e - 52" 52] by simp
    then show ?thesis by (simp add: u_def pow2_def)
  qed
  also have "\<dots> \<le> \<bar>q\<bar> / 2 ^ 53"
    using binade_bounds [of "\<bar>q\<bar>"] False by (simp add: e_def divide_right_mono)
  finally show ?thesis .
qed




lemma valid_example_high: "valid example_high"
  by (simp add: valid_def example_high_def)

lemma valid_example_low: "valid example_low"
  by (simp add: valid_def example_low_def)

lemma valid_example_bmi25: "valid example_bmi25"
  by (simp add: valid_def example_bmi25_def)

section \<open>The fallback\<close>

lemma rule_based_source: "source (rule_based m) = ''rule_based''"
  by (simp add: rule_based_def Let_def)

lemma rule_based_details: "ml_details (rule_based m) = None"
  by (simp add: rule_based_def Let_def)

lemma rule_based_label: "risk_label (rule_based m) = label_of_risk (risk (rule_based m))"
  by (simp add: rule_based_def label_of_risk_def Let_def)



section \<open>The request to the ML service\<close>

text \<open>
  C3. For valid metrics, the body posted to the ML service carries gender 0 for the
  caller's gender 1 (female) and gender 1 for the caller's gender 2 (male); every
  other field is sent as received.
\<close>

theorem gender_remapped_in_request:
  assumes "valid m"
  shows "(gender m = 1 \<longrightarrow> ml_gender (ml_request m) = 0)
    \<and> (gender m = 2 \<longrightarrow> ml_gender (ml_request m) = 1)
    \<and> ml_age (ml_request m) = age m
    \<and> ml_height (ml_request m) = height m
    \<and> ml_weight (ml_request m) = weight m
    \<and> ml_ap_hi (ml_request m) = ap_hi m
    \<and> ml_ap_lo (ml_request m) = ap_lo m
    \<and> ml_cholesterol (ml_request m) = cholesterol m
    \<and> ml_gluc (ml_request m) = gluc m
    \<and> ml_smoke (ml_request m) = smoke m
    \<and> ml_alco (ml_request m) = alco m
    \<and> ml_active (ml_request m) = active m"
  by (simp add: ml_request_def)

theorem gender_remapped_in_request_witness:
  "valid example_low \<and> gender example_low = 1 \<and> ml_gender (ml_request example_low) = 0
   \<and> valid example_high \<and> gender example_high = 2 \<and> ml_gender (ml_request example_high) = 1"
  using gender_remapped_in_request [OF valid_example_low]
    gender_remapped_in_request [OF valid_example_high] valid_example_low valid_example_high
  by (simp add: example_low_def example_high_def)


section \<open>The risk label\<close>

lemma ml_result_Some:
  assumes "ml_result m d = Inr (Some r)"
  shows "\<exists>level. riskLevel_of d = JStr level \<and> risk r = prediction_of d
     \<and> source r = ''ml_model''
     \<and> risk_label r = (if toUpperCase level = ''HIGH'' then ''High Risk'' else ''Low Risk'')"
proof -
  from assms obtain level where "riskLevel_of d = JStr level"
    by (cases "riskLevel_of d")
      (simp_all add: ml_result_def riskLevel_of_def prediction_of_def Let_def split: if_splits)
  with assms show ?thesis
    by (auto simp add: ml_result_def riskLevel_of_def prediction_of_def Let_def split: if_splits)
qed

lemma riskLevel_of_cases:
  "riskLevel_of d =
     (if truthy (supplied_risk_level d) then supplied_risk_level d
      else if prediction_of d = JNum 1 then JStr ''HIGH'' else JStr ''LOW'')"
  by (simp add: riskLevel_of_def supplied_risk_level_def js_or_def)

lemma ml_result_label:
  assumes "ml_result m d = Inr (Some r)"
  shows "risk_label r = label_rule (MlResolved d) r"
proof -
  from ml_result_Some [OF assms] obtain level where
    lv: "riskLevel_of d = JStr level" and rk: "risk r = prediction_of d"
    and src: "source r = ''ml_model''"
    and lb: "risk_label r = (if toUpperCase level = ''HIGH'' then ''High Risk'' else ''Low Risk'')"
    by blast
  show ?thesis
  proof (cases "truthy (supplied_risk_level d)")
    case True
    with lv have "supplied_risk_level d = JStr level"
      by (simp add: riskLevel_of_cases)
    with True src lb show ?thesis
      by (simp add: label_rule_def)
  next
    case False
    with lv have "JStr level = (if prediction_of d = JNum 1 then JStr ''HIGH'' else JStr ''LOW'')"
      by (simp add: riskLevel_of_cases)
    then have "risk_label r = label_of_risk (risk r)"
      using lb rk
      by (auto simp add: label_of_risk_def toUpperCase_def upper_char_def split: if_splits)
    with False src show ?thesis
      by (simp add: label_rule_def)
  qed
qed

text \<open>
  C4, as stated, fails: a response that supplies \<open>prediction = 1\<close> together with
  \<open>risk_level = LOW\<close> yields a result with risk 1 whose label is \<open>Low Risk\<close>.
\<close>

theorem label_follows_risk_counterexample:
  "risk (predictCardiovascularRisk example_low
      (MlResolved (JObj [(''prediction'', JNum 1), (''risk_level'', JStr ''LOW'')]))) = JNum 1
   \<and> risk_label (predictCardiovascularRisk example_low
      (MlResolved (JObj [(''prediction'', JNum 1), (''risk_level'', JStr ''LOW'')]))) = ''Low Risk''"
  by (simp add: predictCardiovascularRisk_def ml_result_def js_or_def Let_def toUpperCase_def
      upper_char_def)

text \<open>
  C4, amended. For valid metrics the label of the result is determined as follows. A
  rule-based result is labelled by its risk alone (\<open>High Risk\<close> for risk 1, else
  \<open>Low Risk\<close>). A remote result is labelled by the \<open>risk_level\<close> text the response
  supplies (\<open>High Risk\<close> when its upper-case form is \<open>HIGH\<close>, else \<open>Low Risk\<close>), and by
  its risk alone only when the response supplies no \<open>risk_level\<close>.
\<close>

theorem label_follows_rule:
  assumes "valid m"
  shows "risk_label (predictCardiovascularRisk m outcome)
         = label_rule outcome (predictCardiovascularRisk m outcome)"
proof (cases outcome)
  case MlRejected
  then show ?thesis
    by (simp add: predictCardiovascularRisk_def label_rule_def rule_based_label)
next
  case (MlResolved d)
  show ?thesis
  proof (cases "ml_result m d")
    case (Inl e)
    then show ?thesis using MlResolved
      by (simp add: predictCardiovascularRisk_def label_rule_def rule_based_label
          rule_based_source)
  next
    case (Inr res)
    show ?thesis
    proof (cases res)
      case None
      then show ?thesis using MlResolved Inr
        by (simp add: predictCardiovascularRisk_def label_rule_def rule_based_label
            rule_based_source)
    next
      case (Some r)
      then show ?thesis using MlResolved Inr ml_result_label [of m d r]
        by (simp add: predictCardiovascularRisk_def)
    qed
  qed
qed

theorem label_follows_rule_witness:
  "valid example_low
   \<and> risk_label (predictCardiovascularRisk example_low
        (MlResolved (JObj [(''prediction'', JNum 0), (''risk_level'', JStr ''high'')])))
     = ''High Risk''"
proof -
  have "label_rule (MlResolved (JObj [(''prediction'', JNum 0), (''risk_level'', JStr ''high'')]))
      (predictCardiovascularRisk example_low
        (MlResolved (JObj [(''prediction'', JNum 0), (''risk_level'', JStr ''high'')])))
     = ''High Risk''"
    by (simp add: label_rule_def supplied_risk_level_def predictCardiovascularRisk_def
        ml_result_def js_or_def Let_def toUpperCase_def upper_char_def)
  then show ?thesis
    using label_follows_rule [OF valid_example_low,
        of "MlResolved (JObj [(''prediction'', JNum 0), (''risk_level'', JStr ''high'')])"]
      valid_example_low
    by simp
qed

section \<open>The reply of POST /api/predict\<close>

text \<open>
  C5. The code renders the caller's gender 1, which everywhere else in the program
  is female, as \<open>Male\<close>, and gender 2 as \<open>Female\<close>: evaluated on the second worked
  example of the specification (gender 1) and on the first (gender 2).
\<close>

theorem patient_gender_rendering:
  "gender example_low = 1
   \<and> p_gender (patient_view_of example_low (rule_based example_low)) = ''Male''
   \<and> predict_handler example_low MlRejected \<lparr>ins_data = JArr [JObj []], ins_error = JNull\<rparr>
     = Reply 200 (Inr
         \<lparr>success = True,
          prediction = prediction_view_of (rule_based example_low),
          patient_data = patient_view_of example_low (rule_based example_low),
          ml_insights = None,
          saved = True,
          message = ''Prediction completed successfully''\<rparr>)
   \<and> gender example_high = 2
   \<and> p_gender (patient_view_of example_high (rule_based example_high)) = ''Female''"
  by (simp add: predict_handler_def predictCardiovascularRisk_def patient_view_of_def
      rule_based_details example_low_def example_high_def Let_def)



section \<open>The rule-based score\<close>

lemma totalRisk_ge_20: "20 \<le> totalRisk m"
  by (simp add: totalRisk_def riskFactors_def Let_def)

text \<open>
  C10. For valid metrics the sum of the risk factors is at least 20, so the lower
  clamp at 10 leaves it unchanged, and the confidence of the rule-based result is the
  sum capped at 95, a value between 20 and 95.
\<close>

theorem lower_clamp_inactive:
  assumes "valid m"
  shows "20 \<le> totalRisk m \<and> max (totalRisk m) 10 = totalRisk m
     \<and> confidence (rule_based m) = Percent (min (totalRisk m) 95)
     \<and> 20 \<le> min (totalRisk m) 95 \<and> min (totalRisk m) 95 \<le> 95"
  using totalRisk_ge_20 [of m] by (simp add: rule_based_def Let_def)


section \<open>Validation of the payload\<close>

lemma check_rules_nil: "check_rules ae rs q = [] \<longleftrightarrow> list_all (\<lambda>r. check_rule r q = []) rs"
  by (induction rs) (auto simp add: Let_def)




















text \<open>
  With \<open>abortEarly\<close> switched off the same schema does report both violations; the
  route does not switch it off.
\<close>

lemma all_errors_two_violations:
  "validate_payload False two_violations
   = Inl [(''age'', ''number.min''), (''gender'', ''any.only'')]"
  by (simp add: validate_payload_def two_violations_def payload_schema_def check_number_def
      check_rule_def unsafe_def Let_def)




section \<open>Statistics\<close>

lemma nonzero_bmis_eq: "nonzero_bmis data = map parseFloat_bmi (filter has_bmi data)"
  by (induction data)
    (auto simp add: nonzero_bmis_def present_bmis_def List.map_filter_simps has_bmi_def
      parseFloat_bmi_def split: option.splits)

lemma averageAge_eq:
  "averageAge (compute_statistics data)
   = (if data = [] then 0 else js_mean (map (\<lambda>r. of_int (r_age r)) data))"
  by (simp add: compute_statistics_def js_mean_def foldl_map)

lemma averageBMI_eq:
  "averageBMI (compute_statistics data)
   = (if nonzero_bmis data = [] then 0 else js_mean (nonzero_bmis data))"
  by (simp add: compute_statistics_def js_mean_def nonzero_bmis_eq foldl_map)

text \<open>
  C8, as stated, fails: of two rows with the BMI values 0 and 20 both have a BMI
  value, whose mean is 10, and the reported average is 20. The filter
  on \<open>item.bmi\<close> drops the row whose BMI is 0 along with the rows that have none.
\<close>

theorem average_bmi_of_present_counterexample:
  "averageBMI (compute_statistics [row_bmi (Some 0), row_bmi (Some 20)]) = 20
   \<and> present_bmis [row_bmi (Some 0), row_bmi (Some 20)] = [0, 20]
   \<and> js_mean (present_bmis [row_bmi (Some 0), row_bmi (Some 20)]) = 10"
  by (simp add: compute_statistics_def row_bmi_def has_bmi_def parseFloat_bmi_def
      present_bmis_def js_mean_def double_eval)

text \<open>
  C8, amended. The statistics of a record set are: the number of records; the numbers
  of records with risk 1 and with risk 0; the numbers of records with gender 2 (male)
  and gender 1 (female); the mean age over all records, 0 when there is none; and the
  mean of the BMI values that are present and not zero, 0 when there is none. A mean
  is the sum, added up from the left in double arithmetic, divided by the count.
\<close>

theorem statistics_computed:
  "total (compute_statistics data) = length data
   \<and> highRisk (compute_statistics data) = length (filter (\<lambda>r. r_risk_prediction r = 1) data)
   \<and> lowRisk (compute_statistics data) = length (filter (\<lambda>r. r_risk_prediction r = 0) data)
   \<and> male (compute_statistics data) = length (filter (\<lambda>r. r_gender r = 2) data)
   \<and> female (compute_statistics data) = length (filter (\<lambda>r. r_gender r = 1) data)
   \<and> averageAge (compute_statistics data)
       = (if data = [] then 0 else js_mean (map (\<lambda>r. of_int (r_age r)) data))
   \<and> averageBMI (compute_statistics data)
       = (if nonzero_bmis data = [] then 0 else js_mean (nonzero_bmis data))"
  using averageAge_eq [of data] averageBMI_eq [of data]
  by (simp add: compute_statistics_def)


section \<open>Pagination\<close>






section \<open>The rule-based score against the exact formula\<close>

text \<open>
  The computed BMI differs from the exact quotient by a relative error of a few units
  in \<open>2^-53\<close>, while an exact BMI that is not on a threshold is at least \<open>1/62500\<close>
  away from it; so the comparisons with 25 and 30 can only differ where the exact BMI is
  25 or 30, and those inputs are few enough to evaluate.
\<close>

lemma to_double_rel:
  assumes "0 < q"
  shows "q * (1 - 1 / 2 ^ 53) \<le> to_double q \<and> to_double q \<le> q * (1 + 1 / 2 ^ 53)"
proof -
  define e :: rat where "e = 1 / 2 ^ 53"
  have "\<bar>q\<bar> / 2 ^ 53 = q * e" using assms by (simp add: e_def)
  then have "\<bar>to_double q - q\<bar> \<le> q * e"
    using to_double_error [of q] by (simp only:)
  then have "q - q * e \<le> to_double q \<and> to_double q \<le> q + q * e"
    by (auto simp add: abs_le_iff)
  then have "q * (1 - e) \<le> to_double q \<and> to_double q \<le> q * (1 + e)"
    by (simp add: algebra_simps)
  then show ?thesis by (simp only: e_def)
qed

lemma bmi_chain:
  fixes x w a s b u :: rat
  assumes u: "0 < u" "u < 1" and x: "0 < x" and w: "0 < w"
    and a: "x * (1 - u) \<le> a" "a \<le> x * (1 + u)"
    and s: "(a * a) * (1 - u) \<le> s" "s \<le> (a * a) * (1 + u)"
    and b: "(w / s) * (1 - u) \<le> b" "b \<le> (w / s) * (1 + u)"
  shows "w / (x * x) * ((1 - u) / (1 + u) ^ 3) \<le> b
       \<and> b \<le> w / (x * x) * ((1 + u) / (1 - u) ^ 3)"
proof -
  have xm: "0 < x * (1 - u)" using x u by simp
  then have a0: "0 < a" using a(1) by linarith
  have aa_lo: "(x * (1 - u)) * (x * (1 - u)) \<le> a * a"
    using a(1) xm by (intro mult_mono) simp_all
  have aa_hi: "a * a \<le> (x * (1 + u)) * (x * (1 + u))"
    using a(2) a0 by (intro mult_mono) simp_all
  have "(x * (1 - u)) * (x * (1 - u)) * (1 - u) \<le> (a * a) * (1 - u)"
    using aa_lo u by (intro mult_right_mono) simp_all
  then have s_lo: "(x * x) * (1 - u) ^ 3 \<le> s"
    using s(1) by (simp add: power3_eq_cube algebra_simps)
  have "(a * a) * (1 + u) \<le> (x * (1 + u)) * (x * (1 + u)) * (1 + u)"
    using aa_hi u by (intro mult_right_mono) simp_all
  then have s_hi: "s \<le> (x * x) * (1 + u) ^ 3"
    using s(2) by (simp add: power3_eq_cube algebra_simps)
  have lo_pos: "0 < (x * x) * (1 - u) ^ 3" using x u by simp
  then have s0: "0 < s" using s_lo by linarith
  have hi_pos: "0 < (x * x) * (1 + u) ^ 3" using x u by simp
  have ws_lo: "w / ((x * x) * (1 + u) ^ 3) \<le> w / s"
    using s_hi s0 w by (intro divide_left_mono) simp_all
  have ws_hi: "w / s \<le> w / ((x * x) * (1 - u) ^ 3)"
    using s_lo lo_pos s0 w by (intro divide_left_mono) simp_all
  have "w / ((x * x) * (1 + u) ^ 3) * (1 - u) \<le> (w / s) * (1 - u)"
    using ws_lo u by (intro mult_right_mono) simp_all
  then have b_lo: "w / ((x * x) * (1 + u) ^ 3) * (1 - u) \<le> b" using b(1) by linarith
  have "(w / s) * (1 + u) \<le> w / ((x * x) * (1 - u) ^ 3) * (1 + u)"
    using ws_hi u by (intro mult_right_mono) simp_all
  then have b_hi: "b \<le> w / ((x * x) * (1 - u) ^ 3) * (1 + u)" using b(2) by linarith
  show ?thesis using b_lo b_hi by simp
qed

lemma computed_bmi_bounds:
  assumes "valid m"
  shows "exact_bmi m * ((1 - 1 / 2 ^ 53) / (1 + 1 / 2 ^ 53) ^ 3) \<le> computed_bmi m
       \<and> computed_bmi m \<le> exact_bmi m * ((1 + 1 / 2 ^ 53) / (1 - 1 / 2 ^ 53) ^ 3)"
proof -
  define x :: rat where "x = of_int (height m) / 100"
  define w :: rat where "w = of_int (weight m)"
  define a where "a = to_double x"
  define s where "s = to_double (a * a)"
  define b where "b = to_double (w / s)"
  have x0: "0 < x" using assms by (simp add: x_def valid_def)
  have w0: "0 < w" using assms by (simp add: w_def valid_def)
  have a: "x * (1 - 1 / 2 ^ 53) \<le> a" "a \<le> x * (1 + 1 / 2 ^ 53)"
    using to_double_rel [OF x0] by (simp_all add: a_def)
  have "0 < x * (1 - 1 / 2 ^ 53)" using x0 by simp
  then have a0: "0 < a" using a(1) by linarith
  then have aa0: "0 < a * a" by simp
  have s: "(a * a) * (1 - 1 / 2 ^ 53) \<le> s" "s \<le> (a * a) * (1 + 1 / 2 ^ 53)"
    using to_double_rel [OF aa0] by (simp_all add: s_def)
  have "0 < (a * a) * (1 - 1 / 2 ^ 53)" using aa0 by simp
  then have s0: "0 < s" using s(1) by linarith
  then have ws0: "0 < w / s" using w0 by simp
  have b: "(w / s) * (1 - 1 / 2 ^ 53) \<le> b" "b \<le> (w / s) * (1 + 1 / 2 ^ 53)"
    using to_double_rel [OF ws0] by (simp_all add: b_def)
  have cb: "computed_bmi m = b"
    by (simp add: computed_bmi_def fdiv_def fmul_def Let_def b_def s_def a_def x_def w_def)
  have eb: "exact_bmi m = w / (x * x)"
    by (simp add: exact_bmi_def x_def w_def power2_eq_square)
  show ?thesis
    unfolding cb eb
    by (rule bmi_chain [OF _ _ x0 w0 a s b]) simp_all
qed


lemma exact_bmi_frac:
  assumes "valid m"
  shows "exact_bmi m = of_int (10000 * weight m) / of_int (height m * height m)"
  using assms by (simp add: exact_bmi_def valid_def power2_eq_square)

lemma roundoff_25:
  "(25::rat) < (25 + 1 / 62500) * ((1 - 1 / 2 ^ 53) / (1 + 1 / 2 ^ 53) ^ 3)"
  "(25 - 1 / 62500) * ((1 + 1 / 2 ^ 53) / (1 - 1 / 2 ^ 53) ^ 3) < (25::rat)"
  by (simp_all add: power_divide)

lemma roundoff_30:
  "(30::rat) < (30 + 1 / 62500) * ((1 - 1 / 2 ^ 53) / (1 + 1 / 2 ^ 53) ^ 3)"
  "(30 - 1 / 62500) * ((1 + 1 / 2 ^ 53) / (1 - 1 / 2 ^ 53) ^ 3) < (30::rat)"
  by (simp_all add: power_divide)

lemma threshold_agrees:
  fixes t :: int
  assumes v: "valid m"
    and lo: "(of_int t :: rat) < (of_int t + 1 / 62500) * ((1 - 1 / 2 ^ 53) / (1 + 1 / 2 ^ 53) ^ 3)"
    and hi: "(of_int t - 1 / 62500) * ((1 + 1 / 2 ^ 53) / (1 - 1 / 2 ^ 53) ^ 3) < (of_int t :: rat)"
    and ne: "10000 * weight m \<noteq> t * (height m * height m)"
  shows "(of_int t < computed_bmi m) = (of_int t < exact_bmi m)"
proof -
  define n where "n = 10000 * weight m"
  define d where "d = height m * height m"
  define L :: rat where "L = (1 - 1 / 2 ^ 53) / (1 + 1 / 2 ^ 53) ^ 3"
  define H :: rat where "H = (1 + 1 / 2 ^ 53) / (1 - 1 / 2 ^ 53) ^ 3"
  have L0: "0 < L" and H0: "0 < H" by (simp_all add: L_def H_def)
  have h: "100 \<le> height m" "height m \<le> 250" using v by (simp_all add: valid_def)
  have "height m * height m \<le> 250 * 250"
    using h by (intro mult_mono) simp_all
  then have d_hi: "d \<le> 62500" by (simp add: d_def)
  have "100 * 100 \<le> height m * height m"
    using h by (intro mult_mono) simp_all
  then have d_pos: "0 < d" by (simp add: d_def)
  have dq: "(0::rat) < of_int d" using d_pos by simp
  have e: "exact_bmi m = of_int n / of_int d"
    using exact_bmi_frac [OF v] by (simp add: n_def d_def)
  have inv: "(1::rat) / 62500 \<le> 1 / of_int d"
  proof -
    have "(of_int d :: rat) \<le> 62500" using d_hi by (metis of_int_le_iff of_int_numeral)
    then show ?thesis using dq by (intro divide_left_mono) simp_all
  qed
  have bounds: "exact_bmi m * L \<le> computed_bmi m" "computed_bmi m \<le> exact_bmi m * H"
    using computed_bmi_bounds [OF v] by (simp_all add: L_def H_def)
  from ne have "t * d < n \<or> n < t * d" by (auto simp add: n_def d_def)
  then show ?thesis
  proof
    assume "t * d < n"
    then have "t * d + 1 \<le> n" by simp
    then have "(of_int (t * d + 1) :: rat) \<le> of_int n" by (simp only: of_int_le_iff)
    then have "(of_int t * of_int d + 1) / of_int d \<le> (of_int n :: rat) / of_int d"
      using dq by (intro divide_right_mono) simp_all
    moreover have "(of_int t * of_int d + 1) / of_int d = (of_int t :: rat) + 1 / of_int d"
      using dq by (simp add: field_simps)
    ultimately have ge: "of_int t + 1 / 62500 \<le> exact_bmi m"
      using inv unfolding e by linarith
    then have "(of_int t + 1 / 62500) * L \<le> exact_bmi m * L"
      using L0 by (intro mult_right_mono) simp_all
    then have "of_int t < computed_bmi m"
      using lo bounds(1) unfolding L_def by linarith
    moreover have "of_int t < exact_bmi m" using ge by linarith
    ultimately show ?thesis by simp
  next
    assume "n < t * d"
    then have "n \<le> t * d - 1" by simp
    then have "(of_int n :: rat) \<le> of_int (t * d - 1)" by (simp only: of_int_le_iff)
    then have "(of_int n :: rat) / of_int d \<le> (of_int t * of_int d - 1) / of_int d"
      using dq by (intro divide_right_mono) simp_all
    moreover have "(of_int t * of_int d - 1) / of_int d = (of_int t :: rat) - 1 / of_int d"
      using dq by (simp add: field_simps)
    ultimately have le: "exact_bmi m \<le> of_int t - 1 / 62500"
      using inv unfolding e by linarith
    then have "exact_bmi m * H \<le> (of_int t - 1 / 62500) * H"
      using H0 by (intro mult_right_mono) simp_all
    then have "computed_bmi m < of_int t"
      using hi bounds(2) unfolding H_def by linarith
    moreover have "exact_bmi m < of_int t" using le by linarith
    ultimately show ?thesis by simp
  qed
qed

lemma ties_25:
  "filter (\<lambda>h. (25 * (h * h)) mod 10000 = 0) [100..250]
   = [100, 120, 140, 160, 180, 200, 220, 240 :: int]"
  by simp

lemma ties_30:
  "filter (\<lambda>h. (30 * (h * h)) mod 10000 = 0) [100..250] = [100, 200 :: int]"
  by simp


lemma tie_heights_25:
  assumes "100 \<le> h" and "h \<le> 250" and "10000 * w = 25 * (h * h)"
  shows "h \<in> {100, 120, 140, 160, 180, 200, 220, 240 :: int}"
proof -
  have "(25 * (h * h)) mod 10000 = (10000 * w) mod 10000" by (simp only: assms(3))
  then have "(25 * (h * h)) mod 10000 = 0" by simp
  moreover have "h \<in> set [100..250]" using assms(1,2) by (simp only: set_upto atLeastAtMost_iff)
  ultimately have "h \<in> set (filter (\<lambda>h. (25 * (h * h)) mod 10000 = 0) [100..250])"
    unfolding set_filter by blast
  then show ?thesis by (simp only: ties_25) simp
qed

lemma tie_heights_30:
  assumes "100 \<le> h" and "h \<le> 250" and "10000 * w = 30 * (h * h)"
  shows "h \<in> {100, 200 :: int}"
proof -
  have "(30 * (h * h)) mod 10000 = (10000 * w) mod 10000" by (simp only: assms(3))
  then have "(30 * (h * h)) mod 10000 = 0" by simp
  moreover have "h \<in> set [100..250]" using assms(1,2) by (simp only: set_upto atLeastAtMost_iff)
  ultimately have "h \<in> set (filter (\<lambda>h. (30 * (h * h)) mod 10000 = 0) [100..250])"
    unfolding set_filter by blast
  then show ?thesis by (simp only: ties_30) simp
qed

lemma computed_bmi_at:
  "height m = 120 \<Longrightarrow> weight m = 36 \<Longrightarrow> \<not> 25 < computed_bmi m"
  "height m = 160 \<Longrightarrow> weight m = 64 \<Longrightarrow> \<not> 25 < computed_bmi m"
  "height m = 180 \<Longrightarrow> weight m = 81 \<Longrightarrow> \<not> 25 < computed_bmi m"
  "height m = 200 \<Longrightarrow> weight m = 100 \<Longrightarrow> \<not> 25 < computed_bmi m"
  "height m = 220 \<Longrightarrow> weight m = 121 \<Longrightarrow> \<not> 25 < computed_bmi m"
  "height m = 240 \<Longrightarrow> weight m = 144 \<Longrightarrow> \<not> 25 < computed_bmi m"
  "height m = 100 \<Longrightarrow> weight m = 30 \<Longrightarrow> \<not> 30 < computed_bmi m"
  "height m = 200 \<Longrightarrow> weight m = 120 \<Longrightarrow> \<not> 30 < computed_bmi m"
  by (simp_all add: computed_bmi_def double_eval)

lemma computed_bmi_at_140_49:
  "height m = 140 \<Longrightarrow> weight m = 49 \<Longrightarrow> computed_bmi m = 7036874417766401 / 281474976710656"
  by (simp add: computed_bmi_def double_eval)

lemma tie_25:
  assumes v: "valid m" and eq: "10000 * weight m = 25 * (height m * height m)"
    and ne: "\<not> (height m = 140 \<and> weight m = 49)"
  shows "\<not> 25 < computed_bmi m \<and> exact_bmi m = 25"
proof -
  have h: "100 \<le> height m" "height m \<le> 250" "30 \<le> weight m"
    using v by (simp_all add: valid_def)
  have "height m \<in> {100, 120, 140, 160, 180, 200, 220, 240}"
    using tie_heights_25 [OF h(1,2) eq] .
  then have c: "\<not> 25 < computed_bmi m"
    using eq ne h(3) by (auto simp add: computed_bmi_at)
  have "exact_bmi m = of_int (25 * (height m * height m)) / of_int (height m * height m)"
    using exact_bmi_frac [OF v] by (simp only: eq)
  then have "exact_bmi m = 25" using h(1) by simp
  with c show ?thesis by simp
qed

lemma tie_30:
  assumes v: "valid m" and eq: "10000 * weight m = 30 * (height m * height m)"
  shows "\<not> 30 < computed_bmi m \<and> exact_bmi m = 30"
proof -
  have h: "100 \<le> height m" "height m \<le> 250" "30 \<le> weight m"
    using v by (simp_all add: valid_def)
  have "height m \<in> {100, 200}"
    using tie_heights_30 [OF h(1,2) eq] .
  then have c: "\<not> 30 < computed_bmi m"
    using eq by (auto simp add: computed_bmi_at)
  have "exact_bmi m = of_int (30 * (height m * height m)) / of_int (height m * height m)"
    using exact_bmi_frac [OF v] by (simp only: eq)
  then have "exact_bmi m = 30" using h(1) by simp
  with c show ?thesis by simp
qed

lemma above_25_agrees:
  assumes "valid m" and "\<not> (height m = 140 \<and> weight m = 49)"
  shows "(25 < computed_bmi m) = (25 < exact_bmi m)"
proof (cases "10000 * weight m = 25 * (height m * height m)")
  case True
  then show ?thesis using tie_25 [OF assms(1) True assms(2)] by simp
next
  case False
  then show ?thesis
    using threshold_agrees [OF assms(1), of 25] roundoff_25 by simp
qed

lemma above_30_agrees:
  assumes "valid m"
  shows "(30 < computed_bmi m) = (30 < exact_bmi m)"
proof (cases "10000 * weight m = 30 * (height m * height m)")
  case True
  then show ?thesis using tie_30 [OF assms True] by simp
next
  case False
  then show ?thesis
    using threshold_agrees [OF assms, of 30] roundoff_30 by simp
qed

lemma bmi_points_agree:
  assumes "valid m" and "\<not> (height m = 140 \<and> weight m = 49)"
  shows "bmi_points (computed_bmi m) = bmi_points (exact_bmi m)"
  using above_25_agrees [OF assms] above_30_agrees [OF assms(1)]
  by (simp add: bmi_points_def)


lemma totalRisk_spec:
  assumes "valid m"
  shows "totalRisk m = spec_score (computed_bmi m) m"
  using assms
  by (auto simp add: totalRisk_def riskFactors_def spec_score_def valid_def Let_def age_points_def
      gender_points_def bmi_points_def systolic_points_def diastolic_points_def
      cholesterol_points_def glucose_points_def lifestyle_points_def)

lemma clamp_min_max: "min (max x 10) 95 = clamp 10 95 x"
  by (simp add: clamp_def)

lemma exact_bmi_example_bmi25: "exact_bmi example_bmi25 = 25"
  by (simp add: exact_bmi_def example_bmi25_def power2_eq_square)

lemma computed_bmi_example_bmi25:
  "computed_bmi example_bmi25 = 7036874417766401 / 281474976710656"
  by (simp add: computed_bmi_at_140_49 example_bmi25_def)

lemmas points_defs =
  spec_confidence_def spec_risk_def spec_score_def clamp_def age_points_def gender_points_def
  bmi_points_def systolic_points_def diastolic_points_def cholesterol_points_def
  glucose_points_def lifestyle_points_def

text \<open>
  C2, as stated, fails. For a patient of height 140 and weight 49 the BMI is exactly
  25, so by the rule as written the BMI contributes 0, the sum is 60 and the risk is 0;
  the code computes the BMI in doubles as \<open>25 + 2^-48\<close>, adds 10 for it and returns
  confidence 70 and risk 1.
\<close>

theorem heuristic_exact_bmi_counterexample:
  "valid example_bmi25
   \<and> exact_bmi example_bmi25 = 25
   \<and> spec_confidence (exact_bmi example_bmi25) example_bmi25 = 60
   \<and> spec_risk (exact_bmi example_bmi25) example_bmi25 = 0
   \<and> confidence (rule_based example_bmi25) = Percent 70
   \<and> risk (rule_based example_bmi25) = JNum 1"
proof -
  have t: "totalRisk example_bmi25 = 70"
    by (simp add: totalRisk_spec [OF valid_example_bmi25] computed_bmi_example_bmi25 points_defs)
      (simp add: example_bmi25_def)
  have s: "spec_confidence (exact_bmi example_bmi25) example_bmi25 = 60"
    "spec_risk (exact_bmi example_bmi25) example_bmi25 = 0"
    by (simp_all add: exact_bmi_example_bmi25 points_defs) (simp_all add: example_bmi25_def)
  have r: "confidence (rule_based example_bmi25) = Percent 70"
    "risk (rule_based example_bmi25) = JNum 1"
    by (simp_all add: rule_based_def t Let_def)
  show ?thesis
    using valid_example_bmi25 exact_bmi_example_bmi25 s r by blast
qed

text \<open>
  C2, amended. For valid metrics the estimator computes the BMI in double arithmetic,
  as weight divided by the rounded square of the rounded height in metres; the
  confidence is the sum of the listed contributions, taken at that BMI, clamped to
  10..95; the risk is 1 exactly when the confidence is at least 65; the probability is
  the double nearest to confidence / 100. For every valid input other than height 140
  with weight 49 the contributions at the computed BMI are those at the exact BMI, so
  confidence and risk are as the exact formula gives them; at height 140 with weight
  49 the BMI contributes 10 where the exact BMI, 25, would contribute 0.
\<close>

theorem heuristic_score:
  assumes "valid m"
  shows "computed_bmi m =
           to_double (of_int (weight m)
             / to_double (to_double (of_int (height m) / 100) * to_double (of_int (height m) / 100)))
    \<and> confidence (rule_based m) = Percent (spec_confidence (computed_bmi m) m)
    \<and> risk (rule_based m) = JNum (of_int (spec_risk (computed_bmi m) m))
    \<and> probability (rule_based m)
        = JNum (to_double (of_int (spec_confidence (computed_bmi m) m) / 100))
    \<and> (\<not> (height m = 140 \<and> weight m = 49) \<longrightarrow>
          bmi_points (computed_bmi m) = bmi_points (exact_bmi m)
          \<and> spec_confidence (computed_bmi m) m = spec_confidence (exact_bmi m) m
          \<and> spec_risk (computed_bmi m) m = spec_risk (exact_bmi m) m)
    \<and> (height m = 140 \<and> weight m = 49 \<longrightarrow>
          bmi_points (computed_bmi m) = 10 \<and> bmi_points (exact_bmi m) = 0)"
proof -
  have c: "min (max (totalRisk m) 10) 95 = spec_confidence (computed_bmi m) m"
    by (simp only: totalRisk_spec [OF assms] clamp_min_max spec_confidence_def)
  have code: "confidence (rule_based m) = Percent (spec_confidence (computed_bmi m) m)"
    "risk (rule_based m) = JNum (of_int (spec_risk (computed_bmi m) m))"
    "probability (rule_based m)
        = JNum (to_double (of_int (spec_confidence (computed_bmi m) m) / 100))"
    by (simp_all add: rule_based_def Let_def c spec_risk_def fdiv_def)
  have bmi: "computed_bmi m =
           to_double (of_int (weight m)
             / to_double (to_double (of_int (height m) / 100) * to_double (of_int (height m) / 100)))"
    by (simp add: computed_bmi_def fdiv_def fmul_def Let_def)
  have agree: "\<not> (height m = 140 \<and> weight m = 49) \<longrightarrow>
          bmi_points (computed_bmi m) = bmi_points (exact_bmi m)
          \<and> spec_confidence (computed_bmi m) m = spec_confidence (exact_bmi m) m
          \<and> spec_risk (computed_bmi m) m = spec_risk (exact_bmi m) m"
    using bmi_points_agree [OF assms]
    by (simp add: spec_confidence_def spec_risk_def spec_score_def)
  have tie: "height m = 140 \<and> weight m = 49 \<longrightarrow>
          bmi_points (computed_bmi m) = 10 \<and> bmi_points (exact_bmi m) = 0"
    by (auto simp add: computed_bmi_at_140_49 bmi_points_def exact_bmi_def power2_eq_square)
  show ?thesis
    using code bmi agree tie by blast
qed

theorem heuristic_score_witness:
  "valid example_high
   \<and> \<not> (height example_high = 140 \<and> weight example_high = 49)
   \<and> spec_score (exact_bmi example_high) example_high = 170
   \<and> confidence (rule_based example_high) = Percent 95
   \<and> risk (rule_based example_high) = JNum 1"
proof -
  have n: "\<not> (height example_high = 140 \<and> weight example_high = 49)"
    by (simp add: example_high_def)
  have e: "exact_bmi example_high = 90000 / 2890"
    by (simp add: exact_bmi_def example_high_def power2_eq_square)
  have s: "spec_score (exact_bmi example_high) example_high = 170"
    "spec_confidence (exact_bmi example_high) example_high = 95"
    "spec_risk (exact_bmi example_high) example_high = 1"
    by (simp_all add: e points_defs) (simp_all add: example_high_def)
  have "confidence (rule_based example_high)
      = Percent (spec_confidence (computed_bmi example_high) example_high)"
    and "risk (rule_based example_high)
      = JNum (of_int (spec_risk (computed_bmi example_high) example_high))"
    and "spec_confidence (computed_bmi example_high) example_high
      = spec_confidence (exact_bmi example_high) example_high"
    and "spec_risk (computed_bmi example_high) example_high
      = spec_risk (exact_bmi example_high) example_high"
    using heuristic_score [OF valid_example_high] n by blast+
  then have "confidence (rule_based example_high) = Percent 95"
    and "risk (rule_based example_high) = JNum 1"
    by (simp_all add: s)
  then show ?thesis
    using valid_example_high n s(1) by blast
qed

subsection \<open>The worked examples of the specification\<close>

lemma totalRisk_example_low: "totalRisk example_low = 20"
proof -
  have n: "\<not> (height example_low = 140 \<and> weight example_low = 49)"
    by (simp add: example_low_def)
  have e: "exact_bmi example_low = 550000 / 27225"
    by (simp add: exact_bmi_def example_low_def power2_eq_square)
  have "spec_score (exact_bmi example_low) example_low = 20"
    by (simp add: e points_defs) (simp add: example_low_def)
  then show ?thesis
    using bmi_points_agree [OF valid_example_low n]
    by (simp add: totalRisk_spec [OF valid_example_low] spec_score_def)
qed

theorem lower_clamp_inactive_witness:
  "valid example_low \<and> totalRisk example_low = 20
   \<and> confidence (rule_based example_low) = Percent 20"
  using lower_clamp_inactive [OF valid_example_low] valid_example_low
  by (simp add: totalRisk_example_low)

lemma totalRisk_example_high: "totalRisk example_high = 170"
proof -
  have n: "\<not> (height example_high = 140 \<and> weight example_high = 49)"
    by (simp add: example_high_def)
  have e: "exact_bmi example_high = 90000 / 2890"
    by (simp add: exact_bmi_def example_high_def power2_eq_square)
  have "spec_score (exact_bmi example_high) example_high = 170"
    by (simp add: e points_defs) (simp add: example_high_def)
  then show ?thesis
    using bmi_points_agree [OF valid_example_high n]
    by (simp add: totalRisk_spec [OF valid_example_high] spec_score_def)
qed

lemma bmi_text_examples:
  "bmi (rule_based example_high) = Text ''31.1''"
  "bmi (rule_based example_low) = Text ''20.2''"
  by (simp_all add: rule_based_def Let_def computed_bmi_def double_eval toFixed1_def digits.simps
      digit_char_def example_high_def example_low_def)

lemma rule_based_examples:
  "confidence (rule_based example_high) = Percent 95"
  "risk (rule_based example_high) = JNum 1"
  "risk_label (rule_based example_high) = ''High Risk''"
  "confidence (rule_based example_low) = Percent 20"
  "risk (rule_based example_low) = JNum 0"
  "risk_label (rule_based example_low) = ''Low Risk''"
  by (simp_all add: rule_based_def Let_def totalRisk_example_high totalRisk_example_low)

end
